theory Spec2Isabelle
  imports Complex_Main "HOL-Library.Log_Nat" "HOL-Library.Multiset"
begin

section \<open>Disaster relief resource management: data model\<close>

text \<open>
  The program keeps two SQLite tables, \<open>camps\<close> and \<open>victims\<close> (models.py, \<open>init_db\<close>).
  A row is a record with one field per column; an \<open>INTEGER\<close> column holds an \<open>int\<close>,
  a \<open>TEXT\<close> column a \<open>string\<close>, and the nullable foreign key \<open>assigned_camp_id\<close> an
  \<open>int option\<close> (\<open>None\<close> is SQL \<open>NULL\<close>). The typed rows hold Python's unbounded
  integers; SQLite's 64-bit arithmetic, in which the camp delta-update runs, is modelled
  separately by \<open>update_camp_resources_sqlite\<close> below.

  A table is the list of its rows in storage order. Every function of models.py opens a
  connection, runs one statement and commits, so it is modelled as a function from the
  database to the new database (and the value it returns).
\<close>

record camp =
  camp_id :: int
  location :: string
  max_capacity :: int
  available_food :: int
  available_medical_kits :: int
  volunteers :: int
  current_occupancy :: int

record victim =
  victim_id :: int
  name :: string
  age :: int
  health_condition :: string
  assigned_camp_id :: "int option"
  food_distributed :: int
  medical_kits_distributed :: int

text \<open>
  \<open>camp_seq\<close> and \<open>victim_seq\<close> are the \<open>AUTOINCREMENT\<close> counters of the two tables
  (SQLite's \<open>sqlite_sequence\<close>): the largest row id handed out so far.
\<close>

record db =
  camps :: "camp list"
  victims :: "victim list"
  camp_seq :: int
  victim_seq :: int

datatype py_error =
  ZeroDivisionError | ValueError | AttributeError | IntegrityError | OverflowError

text \<open>The database \<open>init_db\<close> creates when no file exists yet: two empty tables.\<close>

definition empty_db :: db where
  "empty_db = \<lparr>camps = [], victims = [], camp_seq = 0, victim_seq = 0\<rparr>"

text \<open>The row id an \<open>AUTOINCREMENT\<close> insert picks: one more than every id in the table
  and than every id used before.\<close>

definition next_rowid :: "int \<Rightarrow> int list \<Rightarrow> int" where
  "next_rowid seq ids = fold max ids seq + 1"

subsection \<open>Camp helpers (models.py)\<close>

definition is_full :: "camp \<Rightarrow> bool" where
  "is_full c = (current_occupancy c \<ge> max_capacity c)"

definition get_all_camps :: "db \<Rightarrow> camp list" where
  "get_all_camps d = sort_key camp_id (camps d)"

definition get_camp :: "db \<Rightarrow> int \<Rightarrow> camp option" where
  "get_camp d cid = find (\<lambda>c. camp_id c = cid) (camps d)"

definition get_available_camps :: "db \<Rightarrow> camp list" where
  "get_available_camps d =
     sort_key camp_id (filter (\<lambda>c. current_occupancy c < max_capacity c) (camps d))"

definition create_camp :: "db \<Rightarrow> string \<Rightarrow> int \<Rightarrow> int \<Rightarrow> int \<Rightarrow> int \<Rightarrow> db \<times> int" where
  "create_camp d loc cap food kits vols =
     (let rid = next_rowid (camp_seq d) (map camp_id (camps d));
          row = \<lparr>camp_id = rid, location = loc, max_capacity = cap, available_food = food,
                 available_medical_kits = kits, volunteers = vols, current_occupancy = 0\<rparr>
      in (d\<lparr>camps := camps d @ [row], camp_seq := rid\<rparr>, rid))"

text \<open>
  \<open>update_camp_resources\<close> on the typed rows: what the \<open>UPDATE\<close> does while the id, the
  deltas and the three sums are 64-bit integers, as in every call the routes make (deltas
  \<open>-1\<close>, \<open>0\<close> and \<open>1\<close> on rows just read). Outside that range the statement behaves
  as \<open>update_camp_resources_sqlite\<close> describes.
\<close>

definition update_camp_resources :: "db \<Rightarrow> int \<Rightarrow> int \<Rightarrow> int \<Rightarrow> int \<Rightarrow> db" where
  "update_camp_resources d cid food_delta kits_delta occupancy_delta =
     d\<lparr>camps := map (\<lambda>c. if camp_id c = cid
                          then c\<lparr>available_food := available_food c + food_delta,
                                 available_medical_kits := available_medical_kits c + kits_delta,
                                 current_occupancy := current_occupancy c + occupancy_delta\<rparr>
                          else c) (camps d)\<rparr>"

subsection \<open>Victim helpers (models.py)\<close>

definition is_critical :: "victim \<Rightarrow> bool" where
  "is_critical v = (health_condition v = ''critical'')"

definition get_all_victims :: "db \<Rightarrow> victim list" where
  "get_all_victims d = sort_key victim_id (victims d)"

definition get_victim :: "db \<Rightarrow> int \<Rightarrow> victim option" where
  "get_victim d vid = find (\<lambda>v. victim_id v = vid) (victims d)"

definition get_victims_for_camp :: "db \<Rightarrow> int \<Rightarrow> victim list" where
  "get_victims_for_camp d cid =
     sort_key victim_id (filter (\<lambda>v. assigned_camp_id v = Some cid) (victims d))"

text \<open>
  The insert runs with \<open>PRAGMA foreign_keys = ON\<close>: a camp id that is not \<open>NULL\<close> and
  names no row of \<open>camps\<close> makes the statement fail, \<open>get_db\<close> rolls back and re-raises.
\<close>

definition create_victim :: "db \<Rightarrow> string \<Rightarrow> int \<Rightarrow> string \<Rightarrow> int option \<Rightarrow> py_error + db \<times> int" where
  "create_victim d nm ag hc cid =
     (if (case cid of None \<Rightarrow> False | Some k \<Rightarrow> k \<notin> set (map camp_id (camps d)))
      then Inl IntegrityError
      else (let rid = next_rowid (victim_seq d) (map victim_id (victims d));
                row = \<lparr>victim_id = rid, name = nm, age = ag, health_condition = hc,
                       assigned_camp_id = cid, food_distributed = 0,
                       medical_kits_distributed = 0\<rparr>
            in Inr (d\<lparr>victims := victims d @ [row], victim_seq := rid\<rparr>, rid)))"

definition update_victim_distributions :: "db \<Rightarrow> int \<Rightarrow> int \<Rightarrow> int \<Rightarrow> db" where
  "update_victim_distributions d vid food_delta kits_delta =
     d\<lparr>victims := map (\<lambda>v. if victim_id v = vid
                            then v\<lparr>food_distributed := food_distributed v + food_delta,
                                   medical_kits_distributed :=
                                     medical_kits_distributed v + kits_delta\<rparr>
                            else v) (victims d)\<rparr>"

section \<open>Resource distribution (app.py)\<close>

text \<open>The two warning texts of \<open>distribute_resources\<close>; the dash of the second is the
  three bytes of its UTF-8 encoding.\<close>

definition no_food_warning :: string where
  "no_food_warning = ''No food packets available in this camp.''"

definition critical_kits_warning :: string where
  "critical_kits_warning =
     ''CRITICAL victim '' @ [CHR 0xE2, CHR 0x80, CHR 0x94] @
     '' no medical kits available in camp!''"

text \<open>
  \<open>distribute_resources(victim, camp)\<close> decides from the two snapshots it is given and
  then issues the two delta-updates by id. It returns \<open>(food_given, kits_given, warnings)\<close>;
  the model returns the new database as well.
\<close>

definition distribute_resources :: "db \<Rightarrow> victim \<Rightarrow> camp \<Rightarrow> db \<times> int \<times> int \<times> string list" where
  "distribute_resources d v c =
     (let food_given = (if available_food c > 0 then 1 else 0);
          warnings1 = (if available_food c > 0 then [] else [no_food_warning]);
          kits_given = (if is_critical v
                        then (if available_medical_kits c > 0 then 1 else 0)
                        else (if available_medical_kits c \<ge> 2 then 1 else 0));
          warnings2 = (if is_critical v
                       then (if available_medical_kits c > 0 then warnings1
                             else warnings1 @ [critical_kits_warning])
                       else warnings1);
          d1 = update_camp_resources d (camp_id c) (- food_given) (- kits_given) 0;
          d2 = update_victim_distributions d1 (victim_id v) food_given kits_given
      in (d2, food_given, kits_given, warnings2))"

subsection \<open>Routes (app.py)\<close>

text \<open>
  A route is modelled from the point where its form fields have been read and converted
  (\<open>strip\<close>, \<open>int\<close>); a field that does not convert raises \<open>ValueError\<close> before the
  database is touched. The flashed messages and the response are abstracted to an outcome
  value that keeps the numbers and warning texts they carry.
\<close>

datatype add_camp_outcome = LocationEmpty | CapacityNotPositive | CampRegistered int

definition add_camp :: "db \<Rightarrow> string \<Rightarrow> int \<Rightarrow> int \<Rightarrow> int \<Rightarrow> int \<Rightarrow> db \<times> add_camp_outcome" where
  "add_camp d loc cap food kits vols =
     (if loc = [] then (d, LocationEmpty)
      else if cap \<le> 0 then (d, CapacityNotPositive)
      else (case create_camp d loc cap food kits vols of
              (d', cid) \<Rightarrow> (d', CampRegistered cid)))"

datatype register_outcome =
    NameEmpty
  | InvalidAge
  | InvalidHealthCondition
  | CampNotFound
  | CampIsFull string int int
  | VictimRegistered int int int "string list"
  | RegisterRaised py_error

text \<open>
  \<open>register_victim\<close> (POST). After the checks it increments the occupancy, inserts the
  victim, re-reads victim and camp and distributes. An exception other than \<open>ValueError\<close>
  leaves the handler; reading an attribute of a missing row (\<open>None\<close>) is Python's
  \<open>AttributeError\<close>, raised by \<open>distribute_resources\<close> before it writes anything.
\<close>

definition register_victim :: "db \<Rightarrow> string \<Rightarrow> int \<Rightarrow> string \<Rightarrow> int \<Rightarrow> db \<times> register_outcome" where
  "register_victim d nm ag hc cid =
     (if nm = [] then (d, NameEmpty)
      else if ag \<le> 0 \<or> ag > 120 then (d, InvalidAge)
      else if hc \<noteq> ''normal'' \<and> hc \<noteq> ''critical'' then (d, InvalidHealthCondition)
      else (case get_camp d cid of
              None \<Rightarrow> (d, CampNotFound)
            | Some c \<Rightarrow>
                if is_full c
                then (d, CampIsFull (location c) (current_occupancy c) (max_capacity c))
                else (let d1 = update_camp_resources d cid 0 0 1 in
                      case create_victim d1 nm ag hc (Some cid) of
                        Inl e \<Rightarrow> (d1, RegisterRaised e)
                      | Inr (d2, vid) \<Rightarrow>
                          (case get_victim d2 vid of
                             None \<Rightarrow> (d2, RegisterRaised AttributeError)
                           | Some v \<Rightarrow>
                               (case get_camp d2 cid of
                                  None \<Rightarrow> (d2, RegisterRaised AttributeError)
                                | Some c2 \<Rightarrow>
                                    (case distribute_resources d2 v c2 of
                                       (d3, food_given, kits_given, warnings) \<Rightarrow>
                                         (d3, VictimRegistered vid food_given kits_given
                                                warnings)))))))"

datatype distribute_outcome =
    VictimNotFound
  | NotAssigned
  | Distributed int int "string list"
  | NothingDistributed "string list"

text \<open>
  \<open>do_distribute\<close>. The camp is looked up only when \<open>victim.assigned_camp_id\<close> is truthy:
  neither \<open>NULL\<close> nor \<open>0\<close>.
\<close>

definition do_distribute :: "db \<Rightarrow> int \<Rightarrow> db \<times> distribute_outcome" where
  "do_distribute d vid =
     (case get_victim d vid of
        None \<Rightarrow> (d, VictimNotFound)
      | Some v \<Rightarrow>
          (case (case assigned_camp_id v of
                   None \<Rightarrow> None
                 | Some k \<Rightarrow> if k \<noteq> 0 then get_camp d k else None) of
             None \<Rightarrow> (d, NotAssigned)
           | Some c \<Rightarrow>
               (case distribute_resources d v c of
                  (d', food_given, kits_given, warnings) \<Rightarrow>
                    (d', if food_given \<noteq> 0 \<or> kits_given \<noteq> 0
                         then Distributed food_given kits_given warnings
                         else NothingDistributed warnings))))"

subsection \<open>Report (app.py)\<close>

text \<open>Python's \<open>sum\<close> adds from 0, left to right. \<open>max(xs, key=f)\<close> keeps the first
  element and replaces it only by a strictly greater one; on an empty list it raises
  \<open>ValueError\<close>.\<close>

definition py_sum :: "int list \<Rightarrow> int" where
  "py_sum xs = foldl (+) 0 xs"

definition py_max_key :: "('a \<Rightarrow> int) \<Rightarrow> 'a list \<Rightarrow> py_error + 'a" where
  "py_max_key key xs =
     (case xs of
        [] \<Rightarrow> Inl ValueError
      | x # rest \<Rightarrow> Inr (foldl (\<lambda>best c. if key c > key best then c else best) x rest))"

record report_view =
  total_camps :: int
  total_victims :: int
  total_food :: int
  total_medical_kits :: int
  critical_victims :: int
  busiest_camp :: "camp option"
  report_camps :: "camp list"
  camp_labels :: "string list"
  camp_occupancy :: "int list"
  camp_capacity :: "int list"

definition report :: "db \<Rightarrow> py_error + report_view" where
  "report d =
     (let cs = get_all_camps d;
          vs = get_all_victims d
      in case (if cs \<noteq> []
               then (case py_max_key current_occupancy cs of
                       Inl e \<Rightarrow> Inl e
                     | Inr b \<Rightarrow> Inr (Some b))
               else Inr None) of
           Inl e \<Rightarrow> Inl e
         | Inr busiest \<Rightarrow>
             Inr \<lparr>total_camps = int (length cs),
                  total_victims = int (length vs),
                  total_food = py_sum (map food_distributed vs),
                  total_medical_kits = py_sum (map medical_kits_distributed vs),
                  critical_victims = py_sum (map (\<lambda>v. 1) (filter is_critical vs)),
                  busiest_camp = busiest,
                  report_camps = cs,
                  camp_labels = map location cs,
                  camp_occupancy = map current_occupancy cs,
                  camp_capacity = map max_capacity cs\<rparr>)"

text \<open>
  The aggregates as the specification words them, recomputed over the stored record set
  (the tables themselves, not the ordered query results).
\<close>

definition spec_total_camps :: "db \<Rightarrow> int" where
  "spec_total_camps d = int (size (mset (camps d)))"

definition spec_total_victims :: "db \<Rightarrow> int" where
  "spec_total_victims d = int (size (mset (victims d)))"

definition spec_total_food :: "db \<Rightarrow> int" where
  "spec_total_food d = sum_mset (image_mset food_distributed (mset (victims d)))"

definition spec_total_kits :: "db \<Rightarrow> int" where
  "spec_total_kits d = sum_mset (image_mset medical_kits_distributed (mset (victims d)))"

definition spec_critical_count :: "db \<Rightarrow> int" where
  "spec_critical_count d =
     int (size (filter_mset (\<lambda>v. health_condition v = ''critical'') (mset (victims d))))"

definition spec_busiest :: "db \<Rightarrow> camp option \<Rightarrow> bool" where
  "spec_busiest d b =
     (case b of
        None \<Rightarrow> camps d = []
      | Some c \<Rightarrow> c \<in> set (camps d) \<and>
                  (\<forall>c' \<in> set (camps d). current_occupancy c' \<le> current_occupancy c))"

subsection \<open>Derived occupancy percentage (models.py)\<close>

text \<open>
  \<open>occupancy_percentage\<close> divides two ints, multiplies by 100 and calls \<open>round(_, 1)\<close>,
  all on IEEE doubles. A double is modelled by the rational number it denotes.
  \<open>to_double\<close> is round-to-nearest, ties-to-even, onto 53 significant bits (exponent range
  not modelled: the quotients of 64-bit integers are far from it). CPython's \<open>int / int\<close>
  and float \<open>*\<close> are correctly rounded, and \<open>round(x, n)\<close> rounds the exact value of
  \<open>x\<close> to \<open>n\<close> decimals, ties to even, and converts the decimal back to a double.
\<close>

definition pow2 :: "int \<Rightarrow> rat" where
  "pow2 e = (if 0 \<le> e then 2 ^ nat e else 1 / 2 ^ nat (- e))"

definition round_half_even :: "rat \<Rightarrow> int" where
  "round_half_even q =
     (let f = \<lfloor>q\<rfloor>; r = q - of_int f
      in if r < 1 / 2 then f
         else if 1 / 2 < r then f + 1
         else if even f then f else f + 1)"

text \<open>\<open>ilog2 q\<close> is the floor of the binary logarithm of a positive \<open>q\<close>.\<close>

definition ilog2 :: "rat \<Rightarrow> int" where
  "ilog2 q =
     (case quotient_of q of
        (a, b) \<Rightarrow> (let dif = bitlen a - bitlen b
                   in if pow2 dif \<le> q then dif else dif - 1))"

definition to_double :: "rat \<Rightarrow> rat" where
  "to_double q =
     (if q = 0 then 0
      else (let e = ilog2 \<bar>q\<bar> - 52
            in sgn q * of_int (round_half_even (\<bar>q\<bar> / pow2 e)) * pow2 e))"

definition py_truediv :: "int \<Rightarrow> int \<Rightarrow> py_error + rat" where
  "py_truediv a b =
     (if b = 0 then Inl ZeroDivisionError else Inr (to_double (of_int a / of_int b)))"

definition py_float_mul :: "rat \<Rightarrow> rat \<Rightarrow> rat" where
  "py_float_mul x y = to_double (x * y)"

definition py_round :: "rat \<Rightarrow> nat \<Rightarrow> rat" where
  "py_round x ndigits = to_double (of_int (round_half_even (x * 10 ^ ndigits)) / 10 ^ ndigits)"

datatype py_num = PyInt int | PyFloat rat

fun num_value :: "py_num \<Rightarrow> rat" where
  "num_value (PyInt i) = of_int i"
| "num_value (PyFloat x) = x"

definition occupancy_percentage :: "camp \<Rightarrow> py_error + py_num" where
  "occupancy_percentage c =
     (if max_capacity c = 0 then Inr (PyInt 0)
      else (case py_truediv (current_occupancy c) (max_capacity c) of
              Inl e \<Rightarrow> Inl e
            | Inr q \<Rightarrow> Inr (PyFloat (py_round (py_float_mul q 100) 1))))"

subsection \<open>The camp delta-update in SQLite's 64-bit arithmetic (models.py)\<close>

text \<open>
  \<open>update_camp_resources\<close> binds four Python ints to the \<open>UPDATE\<close>. The \<open>sqlite3\<close>
  module refuses an int outside the signed 64-bit range with \<open>OverflowError\<close>, whether or
  not a row matches; \<open>get_db\<close> then rolls back and re-raises, so nothing is written.
  Inside SQLite, \<open>column + ?\<close> on two integers is 64-bit addition; when the sum leaves the
  range, both operands are converted to doubles and added, and the result is a \<open>REAL\<close>.
  A column of \<open>INTEGER\<close> affinity stores a \<open>REAL\<close> as an integer only if it is a whole
  number strictly between the smallest and the largest 64-bit integer. A cell of the three
  counters is therefore an integer or a double; the other columns are only ever bound at
  insertion and stay integers.
\<close>

definition int64 :: "int \<Rightarrow> bool" where
  "int64 x = (- (2 ^ 63) \<le> x \<and> x < 2 ^ 63)"

datatype sql_num = SqlInteger int | SqlReal rat

record sql_camp =
  sql_camp_id :: int
  sql_location :: string
  sql_max_capacity :: int
  sql_available_food :: sql_num
  sql_available_medical_kits :: sql_num
  sql_volunteers :: int
  sql_current_occupancy :: sql_num

text \<open>A typed row as it is stored, and the stored \<open>camps\<close> table of a typed database.\<close>

definition stored :: "camp \<Rightarrow> sql_camp" where
  "stored c = \<lparr>sql_camp_id = camp_id c, sql_location = location c,
               sql_max_capacity = max_capacity c,
               sql_available_food = SqlInteger (available_food c),
               sql_available_medical_kits = SqlInteger (available_medical_kits c),
               sql_volunteers = volunteers c,
               sql_current_occupancy = SqlInteger (current_occupancy c)\<rparr>"

definition stored_camps :: "db \<Rightarrow> sql_camp list" where
  "stored_camps d = map stored (camps d)"

definition integer_affinity :: "rat \<Rightarrow> sql_num" where
  "integer_affinity r =
     (if of_int \<lfloor>r\<rfloor> = r \<and> - (2 ^ 63) < \<lfloor>r\<rfloor> \<and> \<lfloor>r\<rfloor> < 2 ^ 63 - 1
      then SqlInteger \<lfloor>r\<rfloor> else SqlReal r)"

fun sql_add :: "sql_num \<Rightarrow> int \<Rightarrow> sql_num" where
  "sql_add (SqlInteger x) delta =
     (if int64 (x + delta) then SqlInteger (x + delta)
      else integer_affinity (to_double (to_double (of_int x) + to_double (of_int delta))))"
| "sql_add (SqlReal r) delta = integer_affinity (to_double (r + to_double (of_int delta)))"

definition update_camp_resources_sqlite ::
  "sql_camp list \<Rightarrow> int \<Rightarrow> int \<Rightarrow> int \<Rightarrow> int \<Rightarrow> py_error + sql_camp list" where
  "update_camp_resources_sqlite rows cid food_delta kits_delta occupancy_delta =
     (if \<not> (int64 food_delta \<and> int64 kits_delta \<and> int64 occupancy_delta \<and> int64 cid)
      then Inl OverflowError
      else Inr (map (\<lambda>r. if sql_camp_id r = cid
                          then r\<lparr>sql_available_food := sql_add (sql_available_food r) food_delta,
                                 sql_available_medical_kits :=
                                   sql_add (sql_available_medical_kits r) kits_delta,
                                 sql_current_occupancy :=
                                   sql_add (sql_current_occupancy r) occupancy_delta\<rparr>
                          else r) rows))"

subsection \<open>States the application can reach\<close>

text \<open>
  What SQLite and the route handlers maintain: row ids are unique, positive and bounded
  by the sequence counter; every capacity is positive (\<open>add_camp\<close> checks it); an
  assigned camp id names a stored camp (the foreign key).
\<close>

definition db_inv :: "db \<Rightarrow> bool" where
  "db_inv d =
     (distinct (map camp_id (camps d)) \<and> distinct (map victim_id (victims d)) \<and>
      0 \<le> camp_seq d \<and> 0 \<le> victim_seq d \<and>
      (\<forall>c \<in> set (camps d). 1 \<le> camp_id c \<and> camp_id c \<le> camp_seq d \<and> 0 < max_capacity c) \<and>
      (\<forall>v \<in> set (victims d). 1 \<le> victim_id v \<and> victim_id v \<le> victim_seq d \<and>
          (case assigned_camp_id v of
             None \<Rightarrow> True
           | Some k \<Rightarrow> k \<in> set (map camp_id (camps d)))))"

subsection \<open>Example data\<close>

definition camp_a :: camp where
  "camp_a = \<lparr>camp_id = 1, location = ''North'', max_capacity = 3, available_food = 1,
             available_medical_kits = 1, volunteers = 2, current_occupancy = 0\<rparr>"

definition camp_b :: camp where
  "camp_b = \<lparr>camp_id = 2, location = ''South'', max_capacity = 1, available_food = 0,
             available_medical_kits = 2, volunteers = 0, current_occupancy = 1\<rparr>"

definition victim_a :: victim where
  "victim_a = \<lparr>victim_id = 1, name = ''Asha'', age = 30, health_condition = ''normal'',
               assigned_camp_id = Some 2, food_distributed = 4,
               medical_kits_distributed = 1\<rparr>"

definition camp_third :: camp where
  "camp_third = \<lparr>camp_id = 3, location = ''East'', max_capacity = 3, available_food = 0,
                 available_medical_kits = 0, volunteers = 0, current_occupancy = 1\<rparr>"

definition camp_zero :: camp where
  "camp_zero = \<lparr>camp_id = 4, location = ''West'', max_capacity = 0, available_food = 0,
                available_medical_kits = 0, volunteers = 0, current_occupancy = 0\<rparr>"


definition db_ab :: db where
  "db_ab = \<lparr>camps = [camp_a, camp_b], victims = [victim_a], camp_seq = 2, victim_seq = 1\<rparr>"

section \<open>The camp delta-update\<close>

lemma find_map_update:
  "find (\<lambda>c. key c = k) (map (\<lambda>c. if key c = k then f c else c) xs) =
     map_option f (find (\<lambda>c. key c = k) xs)"
  if "\<And>c. key (f c) = key c"
  using that by (induction xs) auto

lemma find_map_other:
  "find (\<lambda>c. key c = k') (map (\<lambda>c. if key c = k then f c else c) xs) =
     find (\<lambda>c. key c = k') xs"
  if "\<And>c. key (f c) = key c" and "k' \<noteq> k"
  using that by (induction xs) auto

lemma get_camp_update_same:
  "get_camp (update_camp_resources d cid fd kd od) cid =
     map_option (\<lambda>c. c\<lparr>available_food := available_food c + fd,
                        available_medical_kits := available_medical_kits c + kd,
                        current_occupancy := current_occupancy c + od\<rparr>) (get_camp d cid)"
  unfolding get_camp_def update_camp_resources_def
  by (simp add: find_map_update [where key = camp_id])

lemma get_camp_update_other:
  "cid' \<noteq> cid \<Longrightarrow> get_camp (update_camp_resources d cid fd kd od) cid' = get_camp d cid'"
  unfolding get_camp_def update_camp_resources_def
  by (simp add: find_map_other [where key = camp_id])

lemma map_update_absent:
  "k \<notin> key ` set xs \<Longrightarrow> map (\<lambda>c. if key c = k then f c else c) xs = xs"
  by (induction xs) auto

section \<open>The distribution rule\<close>

lemma warnings_differ: "no_food_warning \<noteq> critical_kits_warning"
  by (simp add: no_food_warning_def critical_kits_warning_def)

lemma get_camp_update_victim:
  "get_camp (update_victim_distributions d vid fd kd) cid = get_camp d cid"
  by (simp add: get_camp_def update_victim_distributions_def)

lemma get_victim_update_camp:
  "get_victim (update_camp_resources d cid fd kd od) vid = get_victim d vid"
  by (simp add: get_victim_def update_camp_resources_def)

lemma get_victim_update_same:
  "get_victim (update_victim_distributions d vid fd kd) vid =
     map_option (\<lambda>v. v\<lparr>food_distributed := food_distributed v + fd,
                        medical_kits_distributed := medical_kits_distributed v + kd\<rparr>)
       (get_victim d vid)"
  unfolding get_victim_def update_victim_distributions_def
  by (simp add: find_map_update [where key = victim_id])

text \<open>
  C1. In every call of \<open>distribute_resources\<close> the kit grant follows the priority rule:
  a critical victim gets 1 kit when the camp snapshot has \<open>available_medical_kits > 0\<close>,
  otherwise 0 kits and the critical-shortage warning; any other victim gets 1 kit when
  \<open>available_medical_kits \<ge> 2\<close>, otherwise 0 kits and the kit step adds no warning (the
  returned warnings are then those of the food step alone).
\<close>

theorem distribute_resources_kits:
  "(case distribute_resources d v c of
      (d', food_given, kits_given, warnings) \<Rightarrow>
        kits_given = (if is_critical v
                      then (if available_medical_kits c > 0 then 1 else 0)
                      else (if available_medical_kits c \<ge> 2 then 1 else 0))
      \<and> (critical_kits_warning \<in> set warnings
            \<longleftrightarrow> is_critical v \<and> \<not> available_medical_kits c > 0)
      \<and> warnings = (if available_food c > 0 then [] else [no_food_warning])
                    @ (if is_critical v \<and> \<not> available_medical_kits c > 0
                       then [critical_kits_warning] else []))"
  using warnings_differ by (simp add: distribute_resources_def Let_def)

text \<open>
  C2. In every call of \<open>distribute_resources\<close> the food grant is 1 exactly when the camp
  snapshot has \<open>available_food > 0\<close> and 0 otherwise. With \<open>available_food = 0\<close> the grant
  is 0, the no-food warning is among the returned warnings, and the call still returns
  normally: both delta-updates are issued, with food delta 0 and the kit grant.
\<close>

theorem distribute_resources_food:
  "(case distribute_resources d v c of
      (d', food_given, kits_given, warnings) \<Rightarrow>
        (food_given = 1 \<longleftrightarrow> available_food c > 0)
      \<and> (food_given = 0 \<longleftrightarrow> \<not> available_food c > 0)
      \<and> (no_food_warning \<in> set warnings \<longleftrightarrow> \<not> available_food c > 0)
      \<and> (available_food c = 0 \<longrightarrow>
            food_given = 0 \<and> no_food_warning \<in> set warnings
          \<and> d' = update_victim_distributions
                   (update_camp_resources d (camp_id c) 0 (- kits_given) 0)
                   (victim_id v) 0 kits_given))"
  using warnings_differ by (simp add: distribute_resources_def Let_def)

text \<open>
  C4. In every call of \<open>distribute_resources\<close> both grants are non-negative; the database
  returned is the one obtained by \<open>update_camp_resources\<close> with the negated grants followed
  by \<open>update_victim_distributions\<close> with the grants; the stored camp has its
  \<open>available_food\<close> and \<open>available_medical_kits\<close> decremented by exactly the grants and
  the stored victim has \<open>food_distributed\<close> and \<open>medical_kits_distributed\<close> incremented by
  exactly the grants.
\<close>

theorem distribute_resources_applies:
  "(case distribute_resources d v c of
      (d', food_given, kits_given, warnings) \<Rightarrow>
        0 \<le> food_given \<and> 0 \<le> kits_given
      \<and> d' = update_victim_distributions
               (update_camp_resources d (camp_id c) (- food_given) (- kits_given) 0)
               (victim_id v) food_given kits_given
      \<and> get_camp d' (camp_id c) =
          map_option (\<lambda>r. r\<lparr>available_food := available_food r - food_given,
                             available_medical_kits := available_medical_kits r - kits_given\<rparr>)
            (get_camp d (camp_id c))
      \<and> get_victim d' (victim_id v) =
          map_option (\<lambda>r. r\<lparr>food_distributed := food_distributed r + food_given,
                             medical_kits_distributed :=
                               medical_kits_distributed r + kits_given\<rparr>)
            (get_victim d (victim_id v)))"
  by (simp add: distribute_resources_def Let_def get_camp_update_victim get_camp_update_same
      get_victim_update_same get_victim_update_camp)

lemma distribute_resources_balance:
  assumes "get_camp d (camp_id c) = Some c0"
    and "get_victim d (victim_id v) = Some v0"
    and "distribute_resources d v c = (d', food_given, kits_given, warnings)"
  shows "\<exists>c1 v1. get_camp d' (camp_id c) = Some c1 \<and> get_victim d' (victim_id v) = Some v1
           \<and> available_food c1 + food_distributed v1
               = available_food c0 + food_distributed v0
           \<and> available_medical_kits c1 + medical_kits_distributed v1
               = available_medical_kits c0 + medical_kits_distributed v0
           \<and> available_food c0 - available_food c1 = food_given
           \<and> food_distributed v1 - food_distributed v0 = food_given
           \<and> available_medical_kits c0 - available_medical_kits c1 = kits_given
           \<and> medical_kits_distributed v1 - medical_kits_distributed v0 = kits_given"
  using assms
  by (auto simp add: distribute_resources_def Let_def get_camp_update_victim get_camp_update_same
      get_victim_update_same get_victim_update_camp)

text \<open>
  C9. A call of \<open>distribute_resources\<close> for a stored victim and a stored camp conserves
  both resources: the camp's stock plus the victim's cumulative counter is the same before
  and after, for food and for medical kits, and the camp loses exactly what the victim gains.
  Both callers, \<open>register_victim\<close> and \<open>do_distribute\<close>, pass rows they have just read.
\<close>

theorem distribute_resources_conserves:
  assumes "get_camp d (camp_id c) = Some c0"
    and "get_victim d (victim_id v) = Some v0"
    and "distribute_resources d v c = (d', food_given, kits_given, warnings)"
  shows "\<exists>c1 v1. get_camp d' (camp_id c) = Some c1 \<and> get_victim d' (victim_id v) = Some v1
           \<and> available_food c1 + food_distributed v1
               = available_food c0 + food_distributed v0
           \<and> available_medical_kits c1 + medical_kits_distributed v1
               = available_medical_kits c0 + medical_kits_distributed v0
           \<and> available_food c0 - available_food c1 = food_given
           \<and> food_distributed v1 - food_distributed v0 = food_given
           \<and> available_medical_kits c0 - available_medical_kits c1 = kits_given
           \<and> medical_kits_distributed v1 - medical_kits_distributed v0 = kits_given"
  using assms by (rule distribute_resources_balance)


theorem distribute_resources_kits_witness:
  "is_critical (victim_a\<lparr>health_condition := ''critical''\<rparr>) \<and> \<not> is_critical victim_a
   \<and> (case distribute_resources db_ab (victim_a\<lparr>health_condition := ''critical''\<rparr>) camp_a of
        (d', food_given, kits_given, warnings) \<Rightarrow> kits_given = 1 \<and> warnings = [])
   \<and> (case distribute_resources db_ab (victim_a\<lparr>health_condition := ''critical''\<rparr>)
              camp_third of
        (d', food_given, kits_given, warnings) \<Rightarrow>
           kits_given = 0 \<and> warnings = [no_food_warning, critical_kits_warning])
   \<and> (case distribute_resources db_ab victim_a camp_a of
        (d', food_given, kits_given, warnings) \<Rightarrow> kits_given = 0 \<and> warnings = [])
   \<and> (case distribute_resources db_ab victim_a camp_b of
        (d', food_given, kits_given, warnings) \<Rightarrow>
           kits_given = 1 \<and> warnings = [no_food_warning])"
  using distribute_resources_kits [where d = db_ab and v = "victim_a\<lparr>health_condition := ''critical''\<rparr>" and c = camp_a]
    distribute_resources_kits [where d = db_ab and v = "victim_a\<lparr>health_condition := ''critical''\<rparr>" and c = camp_third]
    distribute_resources_kits [where d = db_ab and v = victim_a and c = camp_a]
    distribute_resources_kits [where d = db_ab and v = victim_a and c = camp_b]
  by (simp add: is_critical_def victim_a_def camp_a_def camp_b_def camp_third_def
      split: prod.splits)

theorem distribute_resources_food_witness:
  "available_food camp_b = 0
   \<and> (case distribute_resources db_ab victim_a camp_b of
        (d', food_given, kits_given, warnings) \<Rightarrow>
           food_given = 0 \<and> no_food_warning \<in> set warnings
         \<and> d' = update_victim_distributions
                  (update_camp_resources db_ab 2 0 (- kits_given) 0) 1 0 kits_given)"
  using distribute_resources_food [where d = db_ab and v = victim_a and c = camp_b]
  by (simp add: victim_a_def camp_b_def split: prod.splits)

theorem distribute_resources_conserves_witness:
  "get_camp db_ab (camp_id camp_b) = Some camp_b
   \<and> get_victim db_ab (victim_id victim_a) = Some victim_a
   \<and> (\<exists>d'. distribute_resources db_ab victim_a camp_b = (d', 0, 1, [no_food_warning])
        \<and> (\<exists>c1 v1. get_camp d' 2 = Some c1 \<and> get_victim d' 1 = Some v1
              \<and> available_food c1 + food_distributed v1 = 4
              \<and> available_medical_kits c1 + medical_kits_distributed v1 = 3
              \<and> available_medical_kits c1 = 1 \<and> medical_kits_distributed v1 = 2))"
proof -
  have c: "get_camp db_ab (camp_id camp_b) = Some camp_b"
    by (simp add: get_camp_def db_ab_def camp_a_def camp_b_def)
  have v: "get_victim db_ab (victim_id victim_a) = Some victim_a"
    by (simp add: get_victim_def db_ab_def victim_a_def)
  obtain d' where r: "distribute_resources db_ab victim_a camp_b = (d', 0, 1, [no_food_warning])"
    by (simp add: distribute_resources_def Let_def is_critical_def victim_a_def camp_b_def)
  from distribute_resources_conserves [OF c v r] c v r show ?thesis
    by (auto simp add: camp_b_def victim_a_def)
qed

section \<open>Registration and the reachable states\<close>

lemma update_camp_zero: "update_camp_resources d cid 0 0 0 = d"
  by (simp add: update_camp_resources_def map_idI)

lemma update_victim_zero: "update_victim_distributions d vid 0 0 = d"
  by (simp add: update_victim_distributions_def map_idI)

lemma fold_max_ge: "seq \<le> fold max ids (seq::int)"
  by (induction ids arbitrary: seq) (auto intro: order_trans [OF max.cobounded2])

lemma fold_max_mem: "x \<in> set ids \<Longrightarrow> x \<le> fold max ids (seq::int)"
proof (induction ids arbitrary: seq)
  case Nil
  then show ?case by simp
next
  case (Cons y ys)
  show ?case
  proof (cases "x = y")
    case True
    have "y \<le> max y seq" by simp
    also have "\<dots> \<le> fold max ys (max y seq)" by (rule fold_max_ge)
    finally show ?thesis using True by simp
  next
    case False
    with Cons show ?thesis by simp
  qed
qed

lemma next_rowid_fresh: "x \<in> set ids \<Longrightarrow> x < next_rowid seq ids"
  using fold_max_mem [of x ids seq] by (simp add: next_rowid_def)

lemma next_rowid_seq: "seq < next_rowid seq ids"
  using fold_max_ge [of seq ids] by (simp add: next_rowid_def)

lemma find_snoc_fresh:
  "\<forall>x \<in> set xs. \<not> P x \<Longrightarrow> P r \<Longrightarrow> find P (xs @ [r]) = Some r"
  by (induction xs) auto

lemma get_camp_mem: "get_camp d cid = Some c \<Longrightarrow> c \<in> set (camps d) \<and> camp_id c = cid"
  by (auto simp: get_camp_def find_Some_iff)

lemma get_victim_mem: "get_victim d vid = Some v \<Longrightarrow> v \<in> set (victims d) \<and> victim_id v = vid"
  by (auto simp: get_victim_def find_Some_iff)

lemma create_victim_ok:
  assumes "get_camp d cid = Some c"
  shows "\<exists>d2 vid. create_victim d nm ag hc (Some cid) = Inr (d2, vid)
           \<and> get_victim d2 vid =
               Some \<lparr>victim_id = vid, name = nm, age = ag, health_condition = hc,
                     assigned_camp_id = Some cid, food_distributed = 0,
                     medical_kits_distributed = 0\<rparr>
           \<and> camps d2 = camps d
           \<and> victims d2 = victims d @ [\<lparr>victim_id = vid, name = nm, age = ag, health_condition = hc,
                     assigned_camp_id = Some cid, food_distributed = 0,
                     medical_kits_distributed = 0\<rparr>]
           \<and> vid = next_rowid (victim_seq d) (map victim_id (victims d))"
proof -
  from get_camp_mem [OF assms] have "cid \<in> set (map camp_id (camps d))" by auto
  moreover have "\<forall>x \<in> set (victims d). victim_id x \<noteq> next_rowid (victim_seq d) (map victim_id (victims d))"
    using next_rowid_fresh [of _ "map victim_id (victims d)" "victim_seq d"] by fastforce
  ultimately show ?thesis
    by (simp add: create_victim_def Let_def get_victim_def find_snoc_fresh)
qed

text \<open>
  C6. Registering into a stored camp whose \<open>current_occupancy\<close> equals its \<open>max_capacity\<close>
  is rejected and returns the database it was given: no victim row is inserted, the
  occupancy is not incremented and nothing is distributed. With a non-empty name, an age
  in 1..120 and a valid health condition the rejection is the camp-full one.
\<close>

theorem register_victim_full_rejected:
  assumes "get_camp d cid = Some c"
    and "current_occupancy c = max_capacity c"
  shows "fst (register_victim d nm ag hc cid) = d
       \<and> snd (register_victim d nm ag hc cid) \<in>
           {NameEmpty, InvalidAge, InvalidHealthCondition,
            CampIsFull (location c) (current_occupancy c) (max_capacity c)}
       \<and> (nm \<noteq> [] \<and> 0 < ag \<and> ag \<le> 120 \<and> (hc = ''normal'' \<or> hc = ''critical'') \<longrightarrow>
            register_victim d nm ag hc cid =
              (d, CampIsFull (location c) (current_occupancy c) (max_capacity c)))"
  using assms by (auto simp add: register_victim_def is_full_def)


lemma db_inv_camp:
  "db_inv d \<Longrightarrow> get_camp d cid = Some c \<Longrightarrow> 1 \<le> cid \<and> 0 < max_capacity c"
  using get_camp_mem [of d cid c] by (auto simp: db_inv_def)

text \<open>
  C3. In a reachable database, take a stored camp with \<open>available_food = 1\<close>,
  \<open>available_medical_kits = 1\<close> and \<open>current_occupancy = 0\<close>. Registering a critical victim
  (non-empty name, age in 1..120) succeeds with grants 1 and 1 and no warning; afterwards
  the camp has occupancy 1, food 0 and kits 0 and the victim's counters are 1 and 1. A
  manual distribution for that victim right after grants nothing, returns the no-food
  warning followed by the critical-shortage warning, and leaves the database unchanged.
\<close>

theorem register_then_distribute_scenario:
  assumes inv: "db_inv d"
    and camp: "get_camp d cid = Some c"
    and stock: "available_food c = 1" "available_medical_kits c = 1"
    and occ: "current_occupancy c = 0"
    and valid: "nm \<noteq> []" "0 < ag" "ag \<le> 120"
  shows "\<exists>d1 vid c1 v1.
           register_victim d nm ag ''critical'' cid = (d1, VictimRegistered vid 1 1 [])
         \<and> get_camp d1 cid = Some c1
         \<and> current_occupancy c1 = 1 \<and> available_food c1 = 0 \<and> available_medical_kits c1 = 0
         \<and> get_victim d1 vid = Some v1
         \<and> food_distributed v1 = 1 \<and> medical_kits_distributed v1 = 1
         \<and> do_distribute d1 vid =
             (d1, NothingDistributed [no_food_warning, critical_kits_warning])"
proof -
  from db_inv_camp [OF inv camp] have cid: "cid \<noteq> 0" and cap: "0 < max_capacity c"
    by auto
  define d0 where "d0 = update_camp_resources d cid 0 0 1"
  define c0 where "c0 = c\<lparr>current_occupancy := 1\<rparr>"
  have c0: "get_camp d0 cid = Some c0"
    by (simp add: d0_def c0_def get_camp_update_same camp occ)
  from create_victim_ok [OF c0, of nm ag "''critical''"]
  obtain d2 vid where cv: "create_victim d0 nm ag ''critical'' (Some cid) = Inr (d2, vid)"
    and v2: "get_victim d2 vid =
               Some \<lparr>victim_id = vid, name = nm, age = ag, health_condition = ''critical'',
                     assigned_camp_id = Some cid, food_distributed = 0,
                     medical_kits_distributed = 0\<rparr>"
    and cs2: "camps d2 = camps d0"
    by blast
  define v0 where "v0 = \<lparr>victim_id = vid, name = nm, age = ag, health_condition = ''critical'',
                     assigned_camp_id = Some cid, food_distributed = 0,
                     medical_kits_distributed = 0\<rparr>"
  have v2': "get_victim d2 vid = Some v0" by (simp add: v2 v0_def)
  have c2: "get_camp d2 cid = Some c0"
    using c0 cs2 by (simp add: get_camp_def)
  have cid0: "camp_id c0 = cid"
    using get_camp_mem [OF c0] by simp
  define d3 where
    "d3 = update_victim_distributions (update_camp_resources d2 cid (- 1) (- 1) 0) vid 1 1"
  have dist: "distribute_resources d2 v0 c0 = (d3, 1, 1, [])"
    by (simp add: distribute_resources_def Let_def d3_def cid0 is_critical_def)
       (simp add: c0_def v0_def stock)
  have reg: "register_victim d nm ag ''critical'' cid = (d3, VictimRegistered vid 1 1 [])"
    using valid cap
    by (simp add: register_victim_def camp is_full_def occ Let_def d0_def [symmetric] cv v2' c2 dist)
  define c3 where "c3 = c\<lparr>available_food := 0, available_medical_kits := 0,
                         current_occupancy := 1\<rparr>"
  define v3 where "v3 = v0\<lparr>food_distributed := 1, medical_kits_distributed := 1\<rparr>"
  have c3: "get_camp d3 cid = Some c3"
    by (simp add: d3_def get_camp_update_victim get_camp_update_same c2 c0_def c3_def stock)
  have v3: "get_victim d3 vid = Some v3"
    by (simp add: d3_def get_victim_update_same get_victim_update_camp v2' v3_def v0_def)
  have cid3: "camp_id c3 = cid"
    using get_camp_mem [OF c3] by simp
  have vid3: "victim_id v3 = vid"
    using get_victim_mem [OF v3] by simp
  have dist2: "distribute_resources d3 v3 c3 = (d3, 0, 0, [no_food_warning, critical_kits_warning])"
    by (simp add: distribute_resources_def Let_def cid3 vid3 update_camp_zero update_victim_zero
        is_critical_def)
       (simp add: c3_def v3_def v0_def)
  have dd: "do_distribute d3 vid =
              (d3, NothingDistributed [no_food_warning, critical_kits_warning])"
  proof -
    have "assigned_camp_id v3 = Some cid" by (simp add: v3_def v0_def)
    then show ?thesis
      using cid by (simp add: do_distribute_def v3 c3 dist2)
  qed
  show ?thesis
    using reg c3 v3 dd by (auto simp add: c3_def v3_def)
qed


lemma db_inv_empty: "db_inv empty_db"
  by (simp add: db_inv_def empty_db_def)

lemma db_inv_iff:
  "db_inv d \<longleftrightarrow>
     distinct (map camp_id (camps d)) \<and> distinct (map victim_id (victims d)) \<and>
     0 \<le> camp_seq d \<and> 0 \<le> victim_seq d \<and>
     (\<forall>c \<in> set (camps d). 1 \<le> camp_id c \<and> camp_id c \<le> camp_seq d \<and> 0 < max_capacity c) \<and>
     (\<forall>v \<in> set (victims d). 1 \<le> victim_id v \<and> victim_id v \<le> victim_seq d) \<and>
     (\<forall>v \<in> set (victims d). \<forall>k. assigned_camp_id v = Some k \<longrightarrow> k \<in> camp_id ` set (camps d))"
  unfolding db_inv_def by (auto split: option.splits)

lemma camp_ids_update:
  "map camp_id (camps (update_camp_resources d cid fd kd od)) = map camp_id (camps d)"
  by (simp add: update_camp_resources_def o_def if_distrib cong: if_cong)

lemma victim_ids_update:
  "map victim_id (victims (update_victim_distributions d vid fd kd)) = map victim_id (victims d)"
  by (simp add: update_victim_distributions_def o_def if_distrib cong: if_cong)

lemma db_inv_update_camp:
  assumes "db_inv d"
  shows "db_inv (update_camp_resources d cid fd kd od)"
proof -
  let ?d = "update_camp_resources d cid fd kd od"
  have ids: "map camp_id (camps ?d) = map camp_id (camps d)"
    by (rule camp_ids_update)
  then have img: "camp_id ` set (camps ?d) = camp_id ` set (camps d)"
    by (metis set_map)
  have rest: "victims ?d = victims d" "camp_seq ?d = camp_seq d" "victim_seq ?d = victim_seq d"
    by (simp_all add: update_camp_resources_def)
  have rows: "\<forall>c \<in> set (camps ?d). 1 \<le> camp_id c \<and> camp_id c \<le> camp_seq d \<and> 0 < max_capacity c"
    using assms by (auto simp add: update_camp_resources_def db_inv_iff)
  show ?thesis
    using assms rows unfolding db_inv_iff ids img rest by simp
qed

lemma db_inv_update_victim:
  assumes "db_inv d"
  shows "db_inv (update_victim_distributions d vid fd kd)"
proof -
  let ?d = "update_victim_distributions d vid fd kd"
  have ids: "map victim_id (victims ?d) = map victim_id (victims d)"
    by (rule victim_ids_update)
  have rest: "camps ?d = camps d" "camp_seq ?d = camp_seq d" "victim_seq ?d = victim_seq d"
    by (simp_all add: update_victim_distributions_def)
  have rows: "\<forall>v \<in> set (victims ?d). 1 \<le> victim_id v \<and> victim_id v \<le> victim_seq d"
    using assms by (auto simp add: update_victim_distributions_def db_inv_iff)
  have fk: "\<forall>v \<in> set (victims ?d). \<forall>k. assigned_camp_id v = Some k \<longrightarrow> k \<in> camp_id ` set (camps d)"
    using assms by (auto simp add: update_victim_distributions_def db_inv_iff)
  show ?thesis
    using assms rows fk unfolding db_inv_iff ids rest by simp
qed

lemma db_inv_distribute:
  "db_inv d \<Longrightarrow> db_inv (fst (distribute_resources d v c))"
  by (simp add: distribute_resources_def Let_def db_inv_update_camp db_inv_update_victim)

lemma db_inv_create_camp:
  assumes inv: "db_inv d" and cap: "0 < cap"
  shows "db_inv (fst (create_camp d loc cap food kits vols))"
proof -
  let ?rid = "next_rowid (camp_seq d) (map camp_id (camps d))"
  let ?row = "\<lparr>camp_id = ?rid, location = loc, max_capacity = cap, available_food = food,
               available_medical_kits = kits, volunteers = vols, current_occupancy = 0\<rparr>"
  have d': "fst (create_camp d loc cap food kits vols) = d\<lparr>camps := camps d @ [?row], camp_seq := ?rid\<rparr>"
    by (simp add: create_camp_def Let_def)
  have seq: "camp_seq d < ?rid" by (rule next_rowid_seq)
  have old: "\<forall>c \<in> set (camps d). 1 \<le> camp_id c \<and> camp_id c \<le> camp_seq d \<and> 0 < max_capacity c"
    using inv by (simp add: db_inv_iff)
  have notin: "?rid \<notin> camp_id ` set (camps d)"
    using old seq by fastforce
  have pos: "1 \<le> ?rid" using seq inv by (simp add: db_inv_iff)
  have rows: "\<forall>c \<in> set (camps d). 1 \<le> camp_id c \<and> camp_id c \<le> ?rid \<and> 0 < max_capacity c"
    using old seq by fastforce
  from inv notin rows pos cap show ?thesis
    unfolding d' db_inv_iff by simp
qed

lemma db_inv_create_victim:
  assumes inv: "db_inv d" and cv: "create_victim d nm ag hc cid = Inr (d', vid)"
  shows "db_inv d'"
proof -
  let ?rid = "next_rowid (victim_seq d) (map victim_id (victims d))"
  let ?row = "\<lparr>victim_id = ?rid, name = nm, age = ag, health_condition = hc,
               assigned_camp_id = cid, food_distributed = 0, medical_kits_distributed = 0\<rparr>"
  from cv have fk: "\<forall>k. cid = Some k \<longrightarrow> k \<in> camp_id ` set (camps d)"
    and d': "d' = d\<lparr>victims := victims d @ [?row], victim_seq := ?rid\<rparr>"
    by (auto simp add: create_victim_def Let_def split: if_splits option.splits)
  have seq: "victim_seq d < ?rid" by (rule next_rowid_seq)
  have old: "\<forall>v \<in> set (victims d). 1 \<le> victim_id v \<and> victim_id v \<le> victim_seq d"
    using inv by (simp add: db_inv_iff)
  have notin: "?rid \<notin> victim_id ` set (victims d)"
    using old seq by fastforce
  have pos: "1 \<le> ?rid" using seq inv by (simp add: db_inv_iff)
  have rows: "\<forall>v \<in> set (victims d). 1 \<le> victim_id v \<and> victim_id v \<le> ?rid"
    using old seq by fastforce
  from inv notin rows pos fk show ?thesis
    unfolding d' db_inv_iff by simp
qed

lemma db_inv_add_camp: "db_inv d \<Longrightarrow> db_inv (fst (add_camp d loc cap food kits vols))"
  using db_inv_create_camp [of d cap loc food kits vols]
  by (cases "create_camp d loc cap food kits vols") (simp add: add_camp_def)

lemma db_inv_register_victim:
  assumes "db_inv d"
  shows "db_inv (fst (register_victim d nm ag hc cid))"
proof -
  let ?d1 = "update_camp_resources d cid 0 0 1"
  have d1: "db_inv ?d1" using assms by (rule db_inv_update_camp)
  have step: "db_inv (fst (case create_victim ?d1 nm ag hc (Some cid) of
                        Inl e \<Rightarrow> (?d1, RegisterRaised e)
                      | Inr (d2, vid) \<Rightarrow>
                          (case get_victim d2 vid of
                             None \<Rightarrow> (d2, RegisterRaised AttributeError)
                           | Some v \<Rightarrow>
                               (case get_camp d2 cid of
                                  None \<Rightarrow> (d2, RegisterRaised AttributeError)
                                | Some c2 \<Rightarrow>
                                    (case distribute_resources d2 v c2 of
                                       (d3, food_given, kits_given, warnings) \<Rightarrow>
                                         (d3, VictimRegistered vid food_given kits_given
                                                warnings))))))"
  proof (cases "create_victim ?d1 nm ag hc (Some cid)")
    case (Inl e)
    with d1 show ?thesis by simp
  next
    case (Inr p)
    obtain d2 vid where p: "p = (d2, vid)" by (cases p)
    from db_inv_create_victim [OF d1] Inr p have d2: "db_inv d2" by simp
    show ?thesis
    proof (cases "get_victim d2 vid")
      case None
      with Inr p d2 show ?thesis by simp
    next
      case (Some v)
      note v = this
      show ?thesis
      proof (cases "get_camp d2 cid")
        case None
        with Inr p d2 v show ?thesis by simp
      next
        case (Some c2)
        from db_inv_distribute [OF d2, of v c2] Inr p v Some show ?thesis
          by (auto split: prod.splits)
      qed
    qed
  qed
  show ?thesis
    using assms step
    by (auto simp add: register_victim_def Let_def split: option.splits)
qed

lemma db_inv_do_distribute:
  assumes "db_inv d"
  shows "db_inv (fst (do_distribute d vid))"
proof -
  have "db_inv (fst (case distribute_resources d v c of
            (d', food_given, kits_given, warnings) \<Rightarrow>
              (d', if food_given \<noteq> 0 \<or> kits_given \<noteq> 0
                   then Distributed food_given kits_given warnings
                   else NothingDistributed warnings)))" for v c
    using db_inv_distribute [OF assms, of v c] by (auto split: prod.splits)
  with assms show ?thesis
    by (simp add: do_distribute_def split: option.splits)
qed


lemma db_inv_db_ab: "db_inv db_ab"
  by (simp add: db_inv_def db_ab_def camp_a_def camp_b_def victim_a_def)

lemma get_camp_db_ab:
  "get_camp db_ab 1 = Some camp_a" "get_camp db_ab 2 = Some camp_b"
  by (simp_all add: get_camp_def db_ab_def camp_a_def camp_b_def)

theorem register_victim_full_rejected_witness:
  "get_camp db_ab 2 = Some camp_b \<and> current_occupancy camp_b = max_capacity camp_b
   \<and> register_victim db_ab ''Ravi'' 41 ''critical'' 2 = (db_ab, CampIsFull ''South'' 1 1)"
proof -
  have occ: "current_occupancy camp_b = max_capacity camp_b" by (simp add: camp_b_def)
  from register_victim_full_rejected [OF get_camp_db_ab(2) occ, of "''Ravi''" 41 "''critical''"]
  have "register_victim db_ab ''Ravi'' 41 ''critical'' 2 =
          (db_ab, CampIsFull (location camp_b) (current_occupancy camp_b) (max_capacity camp_b))"
    by simp
  then show ?thesis
    using get_camp_db_ab(2) by (simp add: camp_b_def)
qed

theorem register_then_distribute_scenario_witness:
  "db_inv db_ab \<and> get_camp db_ab 1 = Some camp_a
   \<and> available_food camp_a = 1 \<and> available_medical_kits camp_a = 1
   \<and> current_occupancy camp_a = 0
   \<and> (\<exists>d1 vid c1 v1.
           register_victim db_ab ''Ravi'' 41 ''critical'' 1 = (d1, VictimRegistered vid 1 1 [])
         \<and> get_camp d1 1 = Some c1
         \<and> current_occupancy c1 = 1 \<and> available_food c1 = 0 \<and> available_medical_kits c1 = 0
         \<and> get_victim d1 vid = Some v1
         \<and> food_distributed v1 = 1 \<and> medical_kits_distributed v1 = 1
         \<and> do_distribute d1 vid =
             (d1, NothingDistributed [no_food_warning, critical_kits_warning]))"
proof -
  have stock: "available_food camp_a = 1" "available_medical_kits camp_a = 1"
    and occ: "current_occupancy camp_a = 0"
    by (simp_all add: camp_a_def)
  have valid: "''Ravi'' \<noteq> []" "0 < (41::int)" "(41::int) \<le> 120" by simp_all
  from register_then_distribute_scenario [OF db_inv_db_ab get_camp_db_ab(1) stock occ valid]
  show ?thesis
    using db_inv_db_ab get_camp_db_ab(1) stock occ by simp
qed

section \<open>The report\<close>

lemma foldl_add_sum_list: "foldl (+) a xs = a + sum_list (xs :: int list)"
  by (induction xs arbitrary: a) simp_all

lemma py_sum_sum_list: "py_sum xs = sum_list xs"
  by (simp add: py_sum_def foldl_add_sum_list)

lemma sum_list_map_sort_key:
  "sum_list (map f (sort_key k xs)) = sum_mset (image_mset f (mset xs))"
proof -
  have "sum_list (map f (sort_key k xs)) = sum_mset (mset (map f (sort_key k xs)))"
    by (simp only: sum_mset_sum_list)
  also have "\<dots> = sum_mset (image_mset f (mset xs))"
    by simp
  finally show ?thesis .
qed

lemma length_filter_sort_key:
  "length (filter P (sort_key k xs)) = size (filter_mset P (mset xs))"
  by (metis size_mset mset_filter mset_sort)

lemma is_critical_eq: "is_critical = (\<lambda>v. health_condition v = ''critical'')"
  by (simp add: fun_eq_iff is_critical_def)

lemma sum_list_ones: "sum_list (map (\<lambda>v. 1) xs) = int (length xs)"
  by (induction xs) simp_all

lemma foldl_max_key:
  "foldl (\<lambda>best c. if key c > key best then c else best) x rest \<in> set (x # rest)
   \<and> (\<forall>c \<in> set (x # rest).
         (key c :: int) \<le> key (foldl (\<lambda>best c. if key c > key best then c else best) x rest))"
proof (induction rest arbitrary: x)
  case Nil
  show ?case by simp
next
  case (Cons y ys)
  let ?x' = "if key y > key x then y else x"
  from Cons [of ?x'] have mem: "foldl (\<lambda>best c. if key c > key best then c else best) ?x' ys \<in> set (?x' # ys)"
    and ub: "\<forall>c \<in> set (?x' # ys). key c \<le> key (foldl (\<lambda>best c. if key c > key best then c else best) ?x' ys)"
    by blast+
  have "key x \<le> key ?x'" "key y \<le> key ?x'" by simp_all
  moreover from ub have "key ?x' \<le> key (foldl (\<lambda>best c. if key c > key best then c else best) ?x' ys)"
    by simp
  ultimately have "key x \<le> key (foldl (\<lambda>best c. if key c > key best then c else best) ?x' ys)"
    "key y \<le> key (foldl (\<lambda>best c. if key c > key best then c else best) ?x' ys)"
    by linarith+
  with mem ub show ?case by (auto split: if_splits)
qed

lemma py_max_key_nonempty:
  assumes "xs \<noteq> []"
  shows "\<exists>b. py_max_key key xs = Inr b \<and> b \<in> set xs \<and> (\<forall>c \<in> set xs. key c \<le> key b)"
proof -
  from assms obtain x rest where xs: "xs = x # rest" by (cases xs) auto
  from foldl_max_key [of key x rest] show ?thesis
    unfolding xs by (simp add: py_max_key_def)
qed

text \<open>
  C8. For every database the report query returns normally, and its aggregates equal the
  ones recomputed over the stored record set: the number of camps, the number of victims,
  the sum of \<open>food_distributed\<close> and the sum of \<open>medical_kits_distributed\<close> over all
  victims, the number of victims whose \<open>health_condition\<close> is critical, and a busiest
  camp that is a stored camp of maximal \<open>current_occupancy\<close>, absent exactly when there
  are no camps.
\<close>

theorem report_aggregates:
  "\<exists>r. report d = Inr r
      \<and> total_camps r = spec_total_camps d
      \<and> total_victims r = spec_total_victims d
      \<and> total_food r = spec_total_food d
      \<and> total_medical_kits r = spec_total_kits d
      \<and> critical_victims r = spec_critical_count d
      \<and> spec_busiest d (busiest_camp r)"
proof (cases "camps d = []")
  case True
  then show ?thesis
    by (simp add: report_def Let_def get_all_camps_def get_all_victims_def py_sum_sum_list
        sum_list_map_sort_key sum_list_ones length_filter_sort_key is_critical_eq
        spec_total_camps_def spec_total_victims_def spec_total_food_def spec_total_kits_def
        spec_critical_count_def spec_busiest_def)
next
  case False
  then have ne: "get_all_camps d \<noteq> []"
    by (metis get_all_camps_def length_sort length_0_conv)
  from py_max_key_nonempty [OF ne, of current_occupancy]
  obtain b where b: "py_max_key current_occupancy (get_all_camps d) = Inr b"
    and mem: "b \<in> set (camps d)"
    and ub: "\<forall>c \<in> set (camps d). current_occupancy c \<le> current_occupancy b"
    by (auto simp: get_all_camps_def)
  have "spec_busiest d (Some b)"
    using mem ub by (simp add: spec_busiest_def)
  then show ?thesis
    using ne b
    by (simp add: report_def Let_def get_all_victims_def py_sum_sum_list
        sum_list_map_sort_key sum_list_ones length_filter_sort_key is_critical_eq
        spec_total_camps_def spec_total_victims_def spec_total_food_def spec_total_kits_def
        spec_critical_count_def)
       (simp add: get_all_camps_def)
qed

theorem report_aggregates_witness:
  "\<exists>r. report db_ab = Inr r
      \<and> total_camps r = 2 \<and> total_victims r = 1 \<and> total_food r = 4
      \<and> total_medical_kits r = 1 \<and> critical_victims r = 0
      \<and> busiest_camp r = Some camp_b"
proof -
  from report_aggregates [of db_ab] obtain r where r: "report db_ab = Inr r"
    and agg: "total_camps r = spec_total_camps db_ab" "total_victims r = spec_total_victims db_ab"
      "total_food r = spec_total_food db_ab" "total_medical_kits r = spec_total_kits db_ab"
      "critical_victims r = spec_critical_count db_ab"
    and busy: "spec_busiest db_ab (busiest_camp r)"
    by blast
  from busy have "busiest_camp r = Some camp_b"
    by (cases "busiest_camp r")
       (auto simp add: spec_busiest_def db_ab_def camp_a_def camp_b_def)
  moreover from agg have "total_camps r = 2 \<and> total_victims r = 1 \<and> total_food r = 4
      \<and> total_medical_kits r = 1 \<and> critical_victims r = 0"
    by (simp add: spec_total_camps_def spec_total_victims_def spec_total_food_def
        spec_total_kits_def spec_critical_count_def db_ab_def victim_a_def)
  ultimately show ?thesis using r by simp
qed

section \<open>Derived camp properties\<close>

lemma pow2_powi: "pow2 e = 2 powi e"
  by (simp add: pow2_def power_int_def power_inverse [symmetric] inverse_eq_divide power_one_over)

lemma pow2_pos: "0 < pow2 e"
  by (simp add: pow2_powi)

lemma pow2_diff: "pow2 (a - b) = pow2 a / pow2 b"
  by (simp add: pow2_powi power_int_diff)

lemma pow2_nat: "pow2 (int n) = 2 ^ n"
  by (simp add: pow2_powi)

lemma pow2_Suc: "pow2 (e + 1) = 2 * pow2 e"
  by (simp add: pow2_powi power_int_add)

lemma round_half_even_err: "\<bar>of_int (round_half_even q) - q\<bar> \<le> 1 / 2"
proof -
  have "0 \<le> q - of_int \<lfloor>q\<rfloor>" "q - of_int \<lfloor>q\<rfloor> < 1"
    by linarith+
  then show ?thesis
    by (auto simp add: round_half_even_def Let_def)
qed

lemma ilog2_bounds:
  assumes "0 < q"
  shows "pow2 (ilog2 q) \<le> q \<and> q < pow2 (ilog2 q + 1)"
proof -
  obtain a b where ab: "quotient_of q = (a, b)" by (cases "quotient_of q")
  then have b: "0 < b" and q: "q = of_int a / of_int b"
    using quotient_of_denom_pos quotient_of_div by blast+
  from assms q b have a: "0 < a"
    by (simp add: zero_less_divide_iff)
  let ?la = "bitlen a" and ?lb = "bitlen b"
  have la: "1 \<le> ?la" and lb: "1 \<le> ?lb"
    using a b by (simp_all add: bitlen_alt_def)
  from bitlen_bounds [OF a] have a_lo: "(2::int) ^ nat (?la - 1) \<le> a" and a_hi: "a < 2 ^ nat ?la"
    by simp_all
  from bitlen_bounds [OF b] have b_lo: "(2::int) ^ nat (?lb - 1) \<le> b" and b_hi: "b < 2 ^ nat ?lb"
    by simp_all
  have pa_lo: "pow2 (?la - 1) \<le> of_int a"
  proof -
    have "pow2 (?la - 1) = of_int (2 ^ nat (?la - 1))"
      using la by (simp add: pow2_def)
    also have "\<dots> \<le> of_int a" using a_lo by (simp only: of_int_le_iff)
    finally show ?thesis .
  qed
  have pa_hi: "of_int a < pow2 ?la"
  proof -
    have "(of_int a :: rat) < of_int (2 ^ nat ?la)" using a_hi by (simp only: of_int_less_iff)
    also have "\<dots> = pow2 ?la" using la by (simp add: pow2_def)
    finally show ?thesis .
  qed
  have pb_lo: "pow2 (?lb - 1) \<le> of_int b"
  proof -
    have "pow2 (?lb - 1) = of_int (2 ^ nat (?lb - 1))"
      using lb by (simp add: pow2_def)
    also have "\<dots> \<le> of_int b" using b_lo by (simp only: of_int_le_iff)
    finally show ?thesis .
  qed
  have pb_hi: "of_int b < pow2 ?lb"
  proof -
    have "(of_int b :: rat) < of_int (2 ^ nat ?lb)" using b_hi by (simp only: of_int_less_iff)
    also have "\<dots> = pow2 ?lb" using lb by (simp add: pow2_def)
    finally show ?thesis .
  qed
  have bq: "(0::rat) < of_int b" using b by simp
  have aq: "(0::rat) < of_int a" using a by simp
  let ?d = "?la - ?lb"
  have lower: "pow2 (?d - 1) \<le> q"
  proof -
    have "pow2 (?d - 1) = pow2 (?la - 1) / pow2 ?lb"
      using pow2_diff [of "?la - 1" ?lb] by (simp add: algebra_simps)
    also have "\<dots> \<le> of_int a / pow2 ?lb"
      using pa_lo pow2_pos [of ?lb] by (simp add: divide_right_mono)
    also have "\<dots> \<le> of_int a / of_int b"
      using pb_hi bq aq by (simp add: divide_left_mono)
    finally show ?thesis by (simp add: q)
  qed
  have upper: "q < pow2 (?d + 1)"
  proof -
    have "q = of_int a / of_int b" by (rule q)
    also have "\<dots> < pow2 ?la / of_int b"
      using pa_hi bq by (simp add: divide_strict_right_mono)
    also have "\<dots> \<le> pow2 ?la / pow2 (?lb - 1)"
      using pb_lo pow2_pos [of "?lb - 1"] pow2_pos [of ?la] by (simp add: divide_left_mono)
    also have "\<dots> = pow2 (?d + 1)"
      using pow2_diff [of ?la "?lb - 1"] by (simp add: algebra_simps)
    finally show ?thesis .
  qed
  show ?thesis
  proof (cases "pow2 ?d \<le> q")
    case True
    then have "ilog2 q = ?d" by (simp add: ilog2_def ab Let_def)
    with True upper show ?thesis by simp
  next
    case False
    then have "ilog2 q = ?d - 1" by (simp add: ilog2_def ab Let_def)
    with False lower show ?thesis by simp
  qed
qed

lemma to_double_err: "\<bar>to_double q - q\<bar> \<le> \<bar>q\<bar> / 2 ^ 53"
proof (cases "q = 0")
  case True
  then show ?thesis by (simp add: to_double_def)
next
  case False
  define a where "a = \<bar>q\<bar>"
  define e where "e = ilog2 a - 52"
  define s where "s = a / pow2 e"
  define n where "n = round_half_even s"
  have a: "0 < a" using False by (simp add: a_def)
  have pe: "0 < pow2 e" by (rule pow2_pos)
  have td: "to_double q = sgn q * of_int n * pow2 e"
    using False by (simp add: to_double_def Let_def a_def e_def s_def n_def)
  have qa: "q = sgn q * a" by (simp add: a_def sgn_mult_abs)
  have sg: "\<bar>sgn q\<bar> = 1" using False by (simp add: abs_sgn_eq)
  have as: "a = s * pow2 e" using pe by (simp add: s_def)
  have "to_double q - q = sgn q * ((of_int n - s) * pow2 e)"
    by (subst qa, subst td, subst as) (simp add: algebra_simps)
  then have "\<bar>to_double q - q\<bar> = \<bar>of_int n - s\<bar> * pow2 e"
    using pe sg by (simp add: abs_mult)
  also have "\<dots> \<le> (1 / 2) * pow2 e"
    using round_half_even_err [of s] pe unfolding n_def
    by (intro mult_right_mono) simp_all
  also have "\<dots> \<le> a / 2 ^ 53"
  proof -
    from ilog2_bounds [OF a] have "pow2 (ilog2 a) \<le> a" by simp
    moreover have "pow2 (ilog2 a) = pow2 e * 2 ^ 52"
    proof -
      have "pow2 e = pow2 (ilog2 a) / pow2 52"
        unfolding e_def by (rule pow2_diff)
      then show ?thesis by (simp add: pow2_def)
    qed
    ultimately have "pow2 e * 2 ^ 52 \<le> a" by simp
    then show ?thesis by simp
  qed
  finally show ?thesis by (simp add: a_def)
qed


lemma occupancy_value_bound:
  fixes c m :: int
  defines "q \<equiv> of_int c / of_int m"
  defines "x2 \<equiv> py_float_mul (to_double q) 100"
  shows "\<bar>of_int (round_half_even (x2 * 10)) / 10 - q * 100\<bar> \<le> 1 / 20 + 3 * \<bar>q * 100\<bar> / 2 ^ 53"
proof -
  define u :: rat where "u = 1 / 2 ^ 53"
  define x1 where "x1 = to_double q"
  define k where "k = round_half_even (x2 * 10)"
  have u: "0 < u" "u \<le> 1" by (simp_all add: u_def)
  have e1: "\<bar>x1 - q\<bar> \<le> \<bar>q\<bar> * u"
    using to_double_err [of q] by (simp add: x1_def u_def)
  have "\<bar>x1\<bar> \<le> \<bar>q\<bar> + \<bar>x1 - q\<bar>" by linarith
  with e1 have a1: "\<bar>x1\<bar> \<le> \<bar>q\<bar> + \<bar>q\<bar> * u" by linarith
  have x2: "x2 = to_double (x1 * 100)" by (simp add: x2_def x1_def py_float_mul_def)
  have "\<bar>x2 - x1 * 100\<bar> \<le> \<bar>x1 * 100\<bar> * u"
    using to_double_err [of "x1 * 100"] by (simp add: x2 u_def)
  also have "\<dots> = (100 * u) * \<bar>x1\<bar>" by (simp add: abs_mult)
  also have "\<dots> \<le> (100 * u) * (\<bar>q\<bar> + \<bar>q\<bar> * u)"
    using a1 u by (intro mult_left_mono) simp_all
  finally have e2: "\<bar>x2 - x1 * 100\<bar> \<le> (100 * u) * (\<bar>q\<bar> + \<bar>q\<bar> * u)" .
  have "\<bar>q\<bar> * u \<le> \<bar>q\<bar> * 1" using u by (intro mult_left_mono) simp_all
  then have "(100 * u) * (\<bar>q\<bar> + \<bar>q\<bar> * u) \<le> (100 * u) * (\<bar>q\<bar> + \<bar>q\<bar>)"
    using u by (intro mult_left_mono) simp_all
  also have "\<dots> = 200 * \<bar>q\<bar> * u" by (simp add: algebra_simps)
  finally have "(100 * u) * (\<bar>q\<bar> + \<bar>q\<bar> * u) \<le> 200 * \<bar>q\<bar> * u" .
  with e2 have e2': "\<bar>x2 - x1 * 100\<bar> \<le> 200 * \<bar>q\<bar> * u" by (rule order_trans)
  have e3: "\<bar>x1 * 100 - q * 100\<bar> \<le> 100 * \<bar>q\<bar> * u"
  proof -
    have "\<bar>x1 * 100 - q * 100\<bar> = \<bar>(x1 - q) * 100\<bar>"
      by (simp only: left_diff_distrib)
    also have "\<dots> = 100 * \<bar>x1 - q\<bar>"
      by (simp only: abs_mult abs_numeral mult.commute)
    finally show ?thesis using e1 by linarith
  qed
  have e4: "\<bar>of_int k / 10 - x2\<bar> \<le> 1 / 20"
  proof -
    have "\<bar>of_int k / 10 - x2\<bar> = \<bar>(of_int k - x2 * 10) / 10\<bar>"
      by (simp only: diff_divide_distrib)
    also have "\<dots> = \<bar>of_int k - x2 * 10\<bar> / 10"
      by (simp only: abs_divide abs_numeral)
    finally have "\<bar>of_int k / 10 - x2\<bar> = \<bar>of_int k - x2 * 10\<bar> / 10" .
    moreover have "\<bar>of_int k - x2 * 10\<bar> \<le> 1 / 2"
      unfolding k_def by (rule round_half_even_err)
    ultimately show ?thesis by linarith
  qed
  have "\<bar>of_int k / 10 - q * 100\<bar>
          \<le> \<bar>of_int k / 10 - x2\<bar> + \<bar>x2 - x1 * 100\<bar> + \<bar>x1 * 100 - q * 100\<bar>"
    by linarith
  with e4 e2' e3 have "\<bar>of_int k / 10 - q * 100\<bar> \<le> 1 / 20 + 300 * \<bar>q\<bar> * u" by linarith
  moreover have "300 * \<bar>q\<bar> * u = 3 * \<bar>q * 100\<bar> / 2 ^ 53"
    by (simp add: u_def abs_mult)
  ultimately show ?thesis unfolding k_def by linarith
qed

text \<open>
  C7, as the code has it. When \<open>max_capacity\<close> is 0, \<open>occupancy_percentage\<close> is the
  integer 0. Otherwise it is \<open>round(current_occupancy / max_capacity * 100, 1)\<close>: the
  double nearest to a one-decimal number \<open>k / 10\<close> that lies within \<open>0.05\<close> (plus the
  rounding error of the two double operations, at most \<open>3 / 2^53\<close> of the exact
  percentage) of \<open>current_occupancy / max_capacity \<times> 100\<close>. It never raises, and
  \<open>is_full\<close> is \<open>current_occupancy \<ge> max_capacity\<close>.
\<close>

theorem occupancy_percentage_rounded:
  "(max_capacity c = 0 \<longrightarrow> occupancy_percentage c = Inr (PyInt 0))
   \<and> (max_capacity c \<noteq> 0 \<longrightarrow>
        occupancy_percentage c =
          Inr (PyFloat (py_round (py_float_mul
                 (to_double (of_int (current_occupancy c) / of_int (max_capacity c))) 100) 1))
      \<and> (\<exists>k. occupancy_percentage c = Inr (PyFloat (to_double (of_int k / 10)))
            \<and> \<bar>of_int k / 10 - of_int (current_occupancy c) / of_int (max_capacity c) * 100\<bar>
                \<le> (1 / 20 :: rat)
                  + 3 * \<bar>of_int (current_occupancy c) / of_int (max_capacity c) * 100\<bar> / 2 ^ 53
            \<and> \<bar>to_double (of_int k / 10) - of_int k / 10\<bar> \<le> \<bar>of_int k / 10\<bar> / 2 ^ 53))
   \<and> (\<forall>e. occupancy_percentage c \<noteq> Inl e)
   \<and> is_full c = (current_occupancy c \<ge> max_capacity c)"
proof -
  let ?q = "of_int (current_occupancy c) / of_int (max_capacity c) :: rat"
  let ?k = "round_half_even (py_float_mul (to_double ?q) 100 * 10)"
  have val: "max_capacity c \<noteq> 0 \<Longrightarrow>
      occupancy_percentage c = Inr (PyFloat (py_round (py_float_mul (to_double ?q) 100) 1))"
    by (simp add: occupancy_percentage_def py_truediv_def)
  have dec: "py_round (py_float_mul (to_double ?q) 100) 1 = to_double (of_int ?k / 10)"
    by (simp add: py_round_def)
  have bound: "\<bar>of_int ?k / 10 - ?q * 100\<bar> \<le> 1 / 20 + 3 * \<bar>?q * 100\<bar> / 2 ^ 53"
    by (rule occupancy_value_bound)
  have noerr: "\<forall>e. occupancy_percentage c \<noteq> Inl e"
    by (simp add: occupancy_percentage_def py_truediv_def)
  have zero: "max_capacity c = 0 \<longrightarrow> occupancy_percentage c = Inr (PyInt 0)"
    by (simp add: occupancy_percentage_def)
  have full: "is_full c = (current_occupancy c \<ge> max_capacity c)"
    by (simp add: is_full_def)
  have ex: "max_capacity c \<noteq> 0 \<Longrightarrow>
      \<exists>k. occupancy_percentage c = Inr (PyFloat (to_double (of_int k / 10)))
        \<and> \<bar>of_int k / 10 - ?q * 100\<bar> \<le> 1 / 20 + 3 * \<bar>?q * 100\<bar> / 2 ^ 53
        \<and> \<bar>to_double (of_int k / 10) - of_int k / 10\<bar> \<le> \<bar>of_int k / 10\<bar> / 2 ^ 53"
    using val dec bound to_double_err [of "of_int ?k / 10"]
    by (intro exI [of _ ?k]) (simp only: simp_thms)
  show ?thesis
    apply (intro conjI impI)
        apply (rule zero [rule_format], assumption)
       apply (erule val)
      apply (erule ex)
     apply (rule noerr)
    apply (rule full)
    done
qed


theorem occupancy_percentage_rounded_witness:
  "max_capacity camp_zero = 0 \<and> occupancy_percentage camp_zero = Inr (PyInt 0)
   \<and> max_capacity camp_third \<noteq> 0
   \<and> (\<exists>k. occupancy_percentage camp_third = Inr (PyFloat (to_double (of_int k / 10)))
          \<and> \<bar>of_int k / 10
               - of_int (current_occupancy camp_third) / of_int (max_capacity camp_third) * 100\<bar>
              \<le> (1 / 20 :: rat)
                + 3 * \<bar>of_int (current_occupancy camp_third)
                        / of_int (max_capacity camp_third) * 100\<bar> / 2 ^ 53)
   \<and> is_full camp_zero \<and> \<not> is_full camp_third"
proof -
  have z: "max_capacity camp_zero = 0" and t: "max_capacity camp_third \<noteq> 0"
    and o: "max_capacity camp_zero \<le> current_occupancy camp_zero"
      "\<not> max_capacity camp_third \<le> current_occupancy camp_third"
    by (simp_all add: camp_zero_def camp_third_def)
  from occupancy_percentage_rounded [of camp_zero] z o
  have "occupancy_percentage camp_zero = Inr (PyInt 0)" and "is_full camp_zero"
    by blast+
  moreover from occupancy_percentage_rounded [of camp_third] t o
  have "\<exists>k. occupancy_percentage camp_third = Inr (PyFloat (to_double (of_int k / 10)))
          \<and> \<bar>of_int k / 10
               - of_int (current_occupancy camp_third) / of_int (max_capacity camp_third) * 100\<bar>
              \<le> (1 / 20 :: rat)
                + 3 * \<bar>of_int (current_occupancy camp_third)
                        / of_int (max_capacity camp_third) * 100\<bar> / 2 ^ 53"
    and "\<not> is_full camp_third"
    by blast+
  ultimately show ?thesis using z t by blast
qed

text \<open>
  C7 as stated fails: for occupancy 1 of capacity 3 the code returns the double written
  \<open>33.3\<close>, which is neither the exact \<open>1 / 3 \<times> 100\<close> nor the unrounded double product
  \<open>(1 / 3) * 100 = 33.33333333333333\<close>.
\<close>

theorem occupancy_percentage_counterexample:
  "occupancy_percentage camp_third = Inr (PyFloat (2343279181116211 / 70368744177664))
   \<and> occupancy_percentage camp_third \<noteq>
       Inr (PyFloat (of_int (current_occupancy camp_third) / of_int (max_capacity camp_third)
                     * 100))
   \<and> occupancy_percentage camp_third \<noteq>
       Inr (PyFloat (py_float_mul (to_double (of_int (current_occupancy camp_third)
                                              / of_int (max_capacity camp_third))) 100))"
proof -
  have v: "occupancy_percentage camp_third = Inr (PyFloat (2343279181116211 / 70368744177664))"
    unfolding camp_third_def by code_simp
  have m: "py_float_mul (to_double (of_int (current_occupancy camp_third)
                                   / of_int (max_capacity camp_third))) 100
           = 2345624805922133 / 70368744177664"
    unfolding camp_third_def by code_simp
  show ?thesis
    unfolding m unfolding v by (simp add: camp_third_def)
qed

section \<open>Conservation at the call site and in total\<close>

text \<open>The manual distribution route passes rows it has just read, so it conserves both
  resources whatever the database; when it distributes nothing the database is unchanged.\<close>

lemma do_distribute_conserves:
  assumes v: "get_victim d vid = Some v"
    and k: "assigned_camp_id v = Some k"
    and c: "get_camp d k = Some c"
  shows "\<exists>c1 v1. get_camp (fst (do_distribute d vid)) k = Some c1
           \<and> get_victim (fst (do_distribute d vid)) vid = Some v1
           \<and> available_food c1 + food_distributed v1 = available_food c + food_distributed v
           \<and> available_medical_kits c1 + medical_kits_distributed v1
               = available_medical_kits c + medical_kits_distributed v"
proof (cases "k = 0")
  case True
  with v k c show ?thesis by (simp add: do_distribute_def)
next
  case False
  obtain d' fg kg ws where r: "distribute_resources d v c = (d', fg, kg, ws)"
    by (cases "distribute_resources d v c") auto
  have ids: "camp_id c = k" "victim_id v = vid"
    using get_camp_mem [OF c] get_victim_mem [OF v] by simp_all
  from distribute_resources_balance [of d c c v v d' fg kg ws] c v r ids
  obtain c1 v1 where "get_camp d' k = Some c1" "get_victim d' vid = Some v1"
    "available_food c1 + food_distributed v1 = available_food c + food_distributed v"
    "available_medical_kits c1 + medical_kits_distributed v1
       = available_medical_kits c + medical_kits_distributed v"
    by auto
  moreover have "fst (do_distribute d vid) = d'"
    using False v k c r by (simp add: do_distribute_def)
  ultimately show ?thesis by simp
qed

text \<open>With unique row ids the totals over the whole tables are conserved as well.\<close>

lemma sum_list_map_update:
  assumes "distinct (map key xs)" and "x \<in> set xs" and "key x = k"
    and "\<And>y. key (g y) = key y"
  shows "sum_list (map f (map (\<lambda>y. if key y = k then g y else y) xs))
           = sum_list (map f xs) + (f (g x) - f x :: int)"
  using assms(1,2,3)
proof (induction xs)
  case Nil
  then show ?case by simp
next
  case (Cons y ys)
  show ?case
  proof (cases "y = x")
    case True
    with Cons.prems have "k \<notin> key ` set ys" by auto
    then have "map (\<lambda>y. if key y = k then g y else y) ys = ys"
      by (rule map_update_absent)
    with True Cons.prems show ?thesis by simp
  next
    case False
    with Cons.prems have "x \<in> set ys" and "key y \<noteq> k" and "distinct (map key ys)"
      by (auto simp: image_iff)
    with Cons.IH Cons.prems show ?thesis by simp
  qed
qed

lemma distribute_resources_total:
  assumes inv: "db_inv d"
    and c0: "get_camp d (camp_id c) = Some c0"
    and v0: "get_victim d (victim_id v) = Some v0"
  shows "sum_list (map available_food (camps (fst (distribute_resources d v c))))
           + sum_list (map food_distributed (victims (fst (distribute_resources d v c))))
         = sum_list (map available_food (camps d)) + sum_list (map food_distributed (victims d))"
    and "sum_list (map available_medical_kits (camps (fst (distribute_resources d v c))))
           + sum_list (map medical_kits_distributed (victims (fst (distribute_resources d v c))))
         = sum_list (map available_medical_kits (camps d))
           + sum_list (map medical_kits_distributed (victims d))"
proof -
  have dc: "distinct (map camp_id (camps d))" and dv: "distinct (map victim_id (victims d))"
    using inv by (simp_all add: db_inv_def)
  note cm = get_camp_mem [OF c0] and vm = get_victim_mem [OF v0]
  obtain fg kg where fg: "fg = fst (snd (distribute_resources d v c))"
    and kg: "kg = fst (snd (snd (distribute_resources d v c)))" by simp
  have d': "fst (distribute_resources d v c) =
              update_victim_distributions
                (update_camp_resources d (camp_id c) (- fg) (- kg) 0) (victim_id v) fg kg"
    by (simp add: fg kg distribute_resources_def Let_def)
  define gc :: "camp \<Rightarrow> camp" where "gc = (\<lambda>y. y\<lparr>available_food := available_food y + - fg,
                               available_medical_kits := available_medical_kits y + - kg,
                               current_occupancy := current_occupancy y + 0\<rparr>)"
  define gv :: "victim \<Rightarrow> victim" where "gv = (\<lambda>y. y\<lparr>food_distributed := food_distributed y + fg,
                               medical_kits_distributed := medical_kits_distributed y + kg\<rparr>)"
  have cs: "camps (fst (distribute_resources d v c)) =
              map (\<lambda>y. if camp_id y = camp_id c then gc y else y) (camps d)"
    by (simp add: d' gc_def update_victim_distributions_def update_camp_resources_def)
  have vs: "victims (fst (distribute_resources d v c)) =
              map (\<lambda>y. if victim_id y = victim_id v then gv y else y) (victims d)"
    by (simp add: d' gv_def update_victim_distributions_def update_camp_resources_def)
  have gck: "camp_id (gc y) = camp_id y" for y by (simp add: gc_def)
  have gvk: "victim_id (gv y) = victim_id y" for y by (simp add: gv_def)
  have cf: "sum_list (map f (map (\<lambda>y. if camp_id y = camp_id c then gc y else y) (camps d)))
              = sum_list (map f (camps d)) + (f (gc c0) - f c0)" for f :: "camp \<Rightarrow> int"
    using cm by (intro sum_list_map_update [OF dc _ _ gck]) simp_all
  have vf: "sum_list (map f (map (\<lambda>y. if victim_id y = victim_id v then gv y else y) (victims d)))
              = sum_list (map f (victims d)) + (f (gv v0) - f v0)" for f :: "victim \<Rightarrow> int"
    using vm by (intro sum_list_map_update [OF dv _ _ gvk]) simp_all
  show "sum_list (map available_food (camps (fst (distribute_resources d v c))))
           + sum_list (map food_distributed (victims (fst (distribute_resources d v c))))
         = sum_list (map available_food (camps d)) + sum_list (map food_distributed (victims d))"
    unfolding cs vs cf vf by (simp add: gc_def gv_def)
  show "sum_list (map available_medical_kits (camps (fst (distribute_resources d v c))))
           + sum_list (map medical_kits_distributed (victims (fst (distribute_resources d v c))))
         = sum_list (map available_medical_kits (camps d))
           + sum_list (map medical_kits_distributed (victims d))"
    unfolding cs vs cf vf by (simp add: gc_def gv_def)
qed

section \<open>The camp delta-update as SQLite runs it\<close>





text \<open>Inside the 64-bit range the statement is \<open>update_camp_resources\<close> on the typed rows.\<close>

lemma update_camp_resources_sqlite_typed:
  assumes "int64 cid" and "int64 food_delta" and "int64 kits_delta" and "int64 occupancy_delta"
    and "\<forall>c \<in> set (camps d). camp_id c = cid \<longrightarrow>
           int64 (available_food c + food_delta)
         \<and> int64 (available_medical_kits c + kits_delta)
         \<and> int64 (current_occupancy c + occupancy_delta)"
  shows "update_camp_resources_sqlite (stored_camps d) cid food_delta kits_delta occupancy_delta
           = Inr (stored_camps (update_camp_resources d cid food_delta kits_delta
                    occupancy_delta))"
  using assms
  by (auto simp add: update_camp_resources_sqlite_def stored_camps_def update_camp_resources_def
      stored_def)

text \<open>
  C10, as the code has it. When the id and the deltas are 64-bit integers the \<open>UPDATE\<close>
  raises no error, keeps the number and order of the camp rows, keeps \<open>camp_id\<close>,
  \<open>location\<close>, \<open>max_capacity\<close> and \<open>volunteers\<close> of every row, keeps every row with
  another id as it is, and leaves the table unchanged when no row has the given id. The
  statement names no other table. When the id or a delta is not a 64-bit integer it raises
  \<open>OverflowError\<close> and nothing is written.
\<close>

theorem update_camp_resources_sqlite_frame:
  "(\<not> (int64 cid \<and> int64 fd \<and> int64 kd \<and> int64 od) \<longrightarrow>
      update_camp_resources_sqlite rows cid fd kd od = Inl OverflowError)
   \<and> (int64 cid \<and> int64 fd \<and> int64 kd \<and> int64 od \<longrightarrow>
        (\<exists>rows'. update_camp_resources_sqlite rows cid fd kd od = Inr rows'
           \<and> length rows' = length rows
           \<and> (\<forall>i < length rows.
                  sql_camp_id (rows' ! i) = sql_camp_id (rows ! i)
                \<and> sql_location (rows' ! i) = sql_location (rows ! i)
                \<and> sql_max_capacity (rows' ! i) = sql_max_capacity (rows ! i)
                \<and> sql_volunteers (rows' ! i) = sql_volunteers (rows ! i)
                \<and> (sql_camp_id (rows ! i) \<noteq> cid \<longrightarrow> rows' ! i = rows ! i))
           \<and> (cid \<notin> sql_camp_id ` set rows \<longrightarrow> rows' = rows)))"
  by (auto simp add: update_camp_resources_sqlite_def map_update_absent)

theorem update_camp_resources_sqlite_frame_witness:
  "int64 1 \<and> int64 5 \<and> int64 7 \<and> int64 8 \<and> int64 9 \<and> \<not> int64 9223372036854775808
   \<and> 5 \<notin> sql_camp_id ` set (stored_camps db_ab)
   \<and> update_camp_resources_sqlite (stored_camps db_ab) 5 7 8 9 = Inr (stored_camps db_ab)
   \<and> update_camp_resources_sqlite (stored_camps db_ab) 1 9223372036854775808 8 9
       = Inl OverflowError
   \<and> (\<exists>rows'. update_camp_resources_sqlite (stored_camps db_ab) 1 7 8 9 = Inr rows'
         \<and> rows' ! 1 = stored camp_b
         \<and> sql_location (rows' ! 0) = ''North'' \<and> sql_max_capacity (rows' ! 0) = 3
         \<and> sql_volunteers (rows' ! 0) = 2)"
proof -
  have r: "int64 1" "int64 5" "int64 7" "int64 8" "int64 9" "\<not> int64 9223372036854775808"
    by (simp_all add: int64_def)
  have rows: "stored_camps db_ab = [stored camp_a, stored camp_b]"
    by (simp add: stored_camps_def db_ab_def)
  have ids: "sql_camp_id (stored camp_a) = 1" "sql_camp_id (stored camp_b) = 2"
    "sql_location (stored camp_a) = ''North''" "sql_max_capacity (stored camp_a) = 3"
    "sql_volunteers (stored camp_a) = 2"
    by (simp_all add: stored_def camp_a_def camp_b_def)
  have absent: "5 \<notin> sql_camp_id ` set (stored_camps db_ab)"
    by (simp add: rows ids)
  from update_camp_resources_sqlite_frame [of 5 7 8 9 "stored_camps db_ab"] r absent
  have a: "update_camp_resources_sqlite (stored_camps db_ab) 5 7 8 9 = Inr (stored_camps db_ab)"
    by auto
  from update_camp_resources_sqlite_frame [of 1 9223372036854775808 8 9 "stored_camps db_ab"] r
  have b: "update_camp_resources_sqlite (stored_camps db_ab) 1 9223372036854775808 8 9
             = Inl OverflowError"
    by blast
  from update_camp_resources_sqlite_frame [of 1 7 8 9 "stored_camps db_ab"] r
  obtain rows' where res: "update_camp_resources_sqlite (stored_camps db_ab) 1 7 8 9 = Inr rows'"
    and fr: "\<forall>i < length (stored_camps db_ab).
                  sql_camp_id (rows' ! i) = sql_camp_id (stored_camps db_ab ! i)
                \<and> sql_location (rows' ! i) = sql_location (stored_camps db_ab ! i)
                \<and> sql_max_capacity (rows' ! i) = sql_max_capacity (stored_camps db_ab ! i)
                \<and> sql_volunteers (rows' ! i) = sql_volunteers (stored_camps db_ab ! i)
                \<and> (sql_camp_id (stored_camps db_ab ! i) \<noteq> 1 \<longrightarrow>
                     rows' ! i = stored_camps db_ab ! i)"
    by blast
  from fr [rule_format, of 0] fr [rule_format, of 1]
  have "rows' ! 1 = stored camp_b" "sql_location (rows' ! 0) = ''North''"
    "sql_max_capacity (rows' ! 0) = 3" "sql_volunteers (rows' ! 0) = 2"
    by (simp_all add: rows ids)
  with r absent a b res show ?thesis by blast
qed

text \<open>
  C10 as stated fails in its last clause: for the id \<open>2^63\<close>, which no camp has, the
  operation raises \<open>OverflowError\<close>.
\<close>

theorem update_camp_resources_sqlite_absent_counterexample:
  "9223372036854775808 \<notin> camp_id ` set (camps db_ab)
   \<and> update_camp_resources_sqlite (stored_camps db_ab) 9223372036854775808 0 0 0
       = Inl OverflowError"
  by (simp add: update_camp_resources_sqlite_def int64_def db_ab_def camp_a_def camp_b_def)


text \<open>
  The calls the routes make stay inside the 64-bit range: on a database with unique ids
  whose stored cells are 64-bit integers, the camp update of \<open>distribute_resources\<close> for a
  camp just read, and the occupancy increment of \<open>register_victim\<close> for a camp that is not
  full, are the \<open>UPDATE\<close> as SQLite runs it.
\<close>

lemma stored_row_unique:
  assumes "distinct (map camp_id (camps d))" and "get_camp d cid = Some c"
    and "c' \<in> set (camps d)" and "camp_id c' = cid"
  shows "c' = c"
proof -
  from get_camp_mem [OF assms(2)] have "c \<in> set (camps d)" "camp_id c = cid" by simp_all
  moreover from assms(1) have "inj_on camp_id (set (camps d))" by (simp add: distinct_map)
  ultimately show ?thesis using assms(3,4) by (auto dest: inj_onD)
qed

lemma distribute_resources_update_in_range:
  assumes "distinct (map camp_id (camps d))" and "get_camp d (camp_id c) = Some c"
    and "int64 (camp_id c)" and "int64 (available_food c)"
    and "int64 (available_medical_kits c)" and "int64 (current_occupancy c)"
    and "distribute_resources d v c = (d', food_given, kits_given, warnings)"
  shows "update_camp_resources_sqlite (stored_camps d) (camp_id c) (- food_given) (- kits_given) 0
           = Inr (stored_camps
                    (update_camp_resources d (camp_id c) (- food_given) (- kits_given) 0))"
proof (rule update_camp_resources_sqlite_typed)
  from assms(7) have fg: "food_given = (if available_food c > 0 then 1 else 0)"
    and kg: "kits_given = 0 \<or> kits_given = 1 \<and> available_medical_kits c > 0"
    by (auto simp add: distribute_resources_def Let_def split: if_splits)
  show "int64 (camp_id c)" by (rule assms(3))
  show "int64 (- food_given)" "int64 (- kits_given)" "int64 0"
    using fg kg by (auto simp add: int64_def)
  show "\<forall>c' \<in> set (camps d). camp_id c' = camp_id c \<longrightarrow>
           int64 (available_food c' + - food_given)
         \<and> int64 (available_medical_kits c' + - kits_given)
         \<and> int64 (current_occupancy c' + 0)"
  proof (intro ballI impI)
    fix c' assume "c' \<in> set (camps d)" "camp_id c' = camp_id c"
    with stored_row_unique [OF assms(1,2)] have "c' = c" by simp
    with assms(4-6) fg kg show "int64 (available_food c' + - food_given)
         \<and> int64 (available_medical_kits c' + - kits_given)
         \<and> int64 (current_occupancy c' + 0)"
      by (auto simp add: int64_def)
  qed
qed

lemma register_victim_update_in_range:
  assumes "distinct (map camp_id (camps d))" and "get_camp d cid = Some c"
    and "\<not> is_full c"
    and "int64 cid" and "int64 (available_food c)" and "int64 (available_medical_kits c)"
    and "int64 (current_occupancy c)" and "int64 (max_capacity c)"
  shows "update_camp_resources_sqlite (stored_camps d) cid 0 0 1
           = Inr (stored_camps (update_camp_resources d cid 0 0 1))"
proof (rule update_camp_resources_sqlite_typed)
  show "int64 cid" by (rule assms(4))
  show "int64 0" "int64 0" "int64 1" by (simp_all add: int64_def)
  show "\<forall>c' \<in> set (camps d). camp_id c' = cid \<longrightarrow>
           int64 (available_food c' + 0) \<and> int64 (available_medical_kits c' + 0)
         \<and> int64 (current_occupancy c' + 1)"
  proof (intro ballI impI)
    fix c' assume "c' \<in> set (camps d)" "camp_id c' = cid"
    with stored_row_unique [OF assms(1,2)] have "c' = c" by simp
    with assms(3,5-8) show "int64 (available_food c' + 0)
         \<and> int64 (available_medical_kits c' + 0) \<and> int64 (current_occupancy c' + 1)"
      by (auto simp add: int64_def is_full_def)
  qed
qed

end
